theory Spec2Isabelle
  imports Complex_Main
begin

section \<open>Text primitives of the language\<close>

text \<open>
  The serial logger \<^verbatim>\<open>serlogger.py\<close> handles one decoded line of text per timer tick.
  A line is modelled as a \<^typ>\<open>string\<close>; every \<^typ>\<open>char\<close> stands for the code point of
  the same number, so the model covers the lines whose code points are below 256.

  \<^verbatim>\<open>str.strip()\<close> removes the characters for which \<^verbatim>\<open>str.isspace()\<close> holds from
  both ends. Below 256 these are 9 to 13, 28 to 32, 133 and 160.
\<close>

definition isspace :: "char \<Rightarrow> bool" where
  "isspace c = (c \<in> set [CHR 0x09, CHR 0x0A, CHR 0x0B, CHR 0x0C, CHR 0x0D,
                          CHR 0x1C, CHR 0x1D, CHR 0x1E, CHR 0x1F, CHR 0x20,
                          CHR 0x85, CHR 0xA0])"

definition strip :: "string \<Rightarrow> string" where
  "strip s = rev (dropWhile isspace (rev (dropWhile isspace s)))"

text \<open>
  \<^verbatim>\<open>s.split(',')\<close> cuts at every separator and keeps empty fields; the result has
  one field more than the text has separators, so it is never empty.
\<close>

fun split_at :: "char \<Rightarrow> string \<Rightarrow> string list" where
  "split_at sep [] = [[]]"
| "split_at sep (c # cs) =
     (if c = sep then [] # split_at sep cs
      else (case split_at sep cs of
              [] \<Rightarrow> [[c]]
            | f # fs \<Rightarrow> (c # f) # fs))"

subsection \<open>The conversion \<^verbatim>\<open>float(s)\<close>\<close>

text \<open>
  \<^verbatim>\<open>float\<close> on a string first turns every white-space character above 127 into a
  blank, then drops the characters 9 to 13 and 32 from both ends (so 28 to 31 are not
  dropped), checks that every underscore stands between two digits and removes the
  underscores, and finally reads an optional sign followed by either a decimal number with
  an optional exponent or one of the words \<^verbatim>\<open>inf\<close>, \<^verbatim>\<open>infinity\<close>, \<^verbatim>\<open>nan\<close> in any
  letter case. Anything else raises \<^verbatim>\<open>ValueError\<close>.
\<close>

definition float_space :: "char \<Rightarrow> bool" where
  "float_space c = (c \<in> set [CHR 0x09, CHR 0x0A, CHR 0x0B, CHR 0x0C, CHR 0x0D, CHR 0x20,
                              CHR 0x85, CHR 0xA0])"

definition isdigit :: "char \<Rightarrow> bool" where
  "isdigit c = (c \<in> set ''0123456789'')"

fun underscores_ok :: "char \<Rightarrow> string \<Rightarrow> bool" where
  "underscores_ok prev [] = (prev \<noteq> CHR ''_'')"
| "underscores_ok prev (c # cs) =
     (if c = CHR ''_'' then isdigit prev \<and> underscores_ok c cs
      else if prev = CHR ''_'' then isdigit c \<and> underscores_ok c cs
      else underscores_ok c cs)"

definition drop_sign :: "string \<Rightarrow> string" where
  "drop_sign s = (case s of
                    [] \<Rightarrow> []
                  | c # cs \<Rightarrow> if c = CHR ''+'' \<or> c = CHR ''-'' then cs else s)"

definition is_exponent :: "string \<Rightarrow> bool" where
  "is_exponent s = (case s of
                      [] \<Rightarrow> True
                    | e # r \<Rightarrow> (e = CHR ''e'' \<or> e = CHR ''E'')
                               \<and> drop_sign r \<noteq> [] \<and> list_all isdigit (drop_sign r))"

definition is_number :: "string \<Rightarrow> bool" where
  "is_number s =
     (let int_part = takeWhile isdigit s;
          r1 = dropWhile isdigit s
      in case r1 of
           [] \<Rightarrow> int_part \<noteq> []
         | c # r2 \<Rightarrow>
             if c = CHR ''.''
             then int_part @ takeWhile isdigit r2 \<noteq> []
                  \<and> is_exponent (dropWhile isdigit r2)
             else int_part \<noteq> [] \<and> is_exponent r1)"

definition lower :: "char \<Rightarrow> char" where
  "lower c = (case map_of (zip ''ABCDEFGHIJKLMNOPQRSTUVWXYZ'' ''abcdefghijklmnopqrstuvwxyz'') c of
                None \<Rightarrow> c
              | Some l \<Rightarrow> l)"

definition is_inf_or_nan :: "string \<Rightarrow> bool" where
  "is_inf_or_nan s = (map lower s \<in> set [''inf'', ''infinity'', ''nan''])"

definition float_literal :: "string \<Rightarrow> string option" where
  "float_literal s =
     (let t = rev (dropWhile float_space (rev (dropWhile float_space s)))
      in if t \<noteq> [] \<and> underscores_ok (CHR 0x00) t
            \<and> (let u = drop_sign (filter (\<lambda>c. c \<noteq> CHR ''_'') t)
                in is_number u \<or> is_inf_or_nan u)
         then Some t else None)"

text \<open>
  Values held in the program's lists. The elapsed time is held as text; a converted
  field is held as a float. The model carries a float as the trimmed literal it was read
  from: which double that literal denotes plays no part in the control flow.
\<close>

datatype pyval = is_PyStr: PyStr string | is_PyFloat: PyFloat string

fun text_of :: "pyval \<Rightarrow> string" where
  "text_of (PyStr s) = s"
| "text_of (PyFloat l) = l"

datatype pyexc = ValueError

definition float_of_str :: "string \<Rightarrow> pyexc + pyval" where
  "float_of_str s = (case float_literal s of
                       None \<Rightarrow> Inl ValueError
                     | Some t \<Rightarrow> Inr (PyFloat t))"

subsection \<open>Doubles and their subtraction\<close>

text \<open>
  A clock reading is a finite double, hence a rational number. Rounding to the nearest
  integer with ties to the even one is the rounding of both the double arithmetic and the
  format \<^verbatim>\<open>'%.2f'\<close>.
\<close>

definition round_half_even :: "rat \<Rightarrow> int" where
  "round_half_even x =
     (let f = \<lfloor>x\<rfloor>; d = x - of_int f
      in if d < 1 / 2 then f
         else if 1 / 2 < d then f + 1
         else if even f then f else f + 1)"

text \<open>
  The binary exponent of a positive number \<open>x\<close> is the integer \<open>e\<close> with
  \<open>2 powi e \<le> x < 2 powi (e + 1)\<close>: the number of halvings that bring \<open>x\<close> below 2
  when \<open>x\<close> is at least 1, and minus the number of doublings that bring it up to 1
  otherwise.
\<close>

function halvings :: "rat \<Rightarrow> nat" where
  "halvings x = (if x < 2 then 0 else Suc (halvings (x / 2)))"
  by pat_completeness auto
termination
proof (relation "measure (\<lambda>x. nat \<lfloor>x\<rfloor>)")
  show "wf (measure (\<lambda>x::rat. nat \<lfloor>x\<rfloor>))"
    by simp
next
  fix x :: rat
  assume "\<not> x < 2"
  then have "x / 2 \<le> x - 1"
    by simp
  then have "\<lfloor>x / 2\<rfloor> \<le> \<lfloor>x - 1\<rfloor>"
    by (rule floor_mono)
  moreover have "1 \<le> \<lfloor>x\<rfloor>"
    using \<open>\<not> x < 2\<close> by linarith
  ultimately show "(x / 2, x) \<in> measure (\<lambda>x. nat \<lfloor>x\<rfloor>)"
    by simp
qed

function doublings :: "rat \<Rightarrow> nat" where
  "doublings x = (if x \<le> 0 \<or> 1 \<le> x then 0 else Suc (doublings (2 * x)))"
  by pat_completeness auto
termination
proof (relation "measure (\<lambda>x. nat \<lceil>1 / x\<rceil>)")
  show "wf (measure (\<lambda>x::rat. nat \<lceil>1 / x\<rceil>))"
    by simp
next
  fix x :: rat
  assume "\<not> (x \<le> 0 \<or> 1 \<le> x)"
  then have x: "0 < x" "x < 1"
    by simp_all
  then have "1 < 1 / x"
    by simp
  then have two: "2 \<le> \<lceil>1 / x\<rceil>"
    by linarith
  have "1 / (2 * x) = (1 / x) / 2"
    by simp
  also have "\<dots> \<le> of_int \<lceil>1 / x\<rceil> / 2"
    by (simp add: divide_right_mono)
  also have "\<dots> \<le> of_int (\<lceil>1 / x\<rceil> - 1)"
    using two by simp
  finally have "\<lceil>1 / (2 * x)\<rceil> \<le> \<lceil>1 / x\<rceil> - 1"
    by (rule ceiling_le)
  with two have "nat \<lceil>1 / (2 * x)\<rceil> < nat \<lceil>1 / x\<rceil>"
    by arith
  then show "(2 * x, x) \<in> measure (\<lambda>x. nat \<lceil>1 / x\<rceil>)"
    by (simp only: in_measure)
qed

declare halvings.simps [simp del]

declare doublings.simps [simp del]

definition binary_exponent :: "rat \<Rightarrow> int" where
  "binary_exponent x = (if 1 \<le> x then int (halvings x) else - int (doublings x))"

text \<open>
  A double has 53 significant bits. The float operation \<^verbatim>\<open>a - b\<close> gives the exact
  difference rounded to the nearest double, ties to even: the difference is scaled by its
  unit in the last place, rounded to an integer and scaled back. Clock readings are
  seconds since 1970, far from the largest and the smallest double, so the bounds on the
  exponent of a double are left out.
\<close>

definition round_double :: "rat \<Rightarrow> rat" where
  "round_double x =
     (if x = 0 then 0
      else (let ulp = 2 powi (binary_exponent \<bar>x\<bar> - 52)
            in sgn x * of_int (round_half_even (\<bar>x\<bar> / ulp)) * ulp))"

definition float_sub :: "rat \<Rightarrow> rat \<Rightarrow> rat" where
  "float_sub a b = round_double (a - b)"

subsection \<open>The format \<^verbatim>\<open>'%.2f'\<close>\<close>

text \<open>
  \<^verbatim>\<open>'%.2f' % x\<close> prints the exact value of the double \<open>x\<close> rounded to two decimals,
  ties to the even digit, with the sign of \<open>x\<close>.
\<close>

definition digit_char :: "nat \<Rightarrow> char" where
  "digit_char d = ''0123456789'' ! (d mod 10)"

fun show_nat :: "nat \<Rightarrow> string" where
  "show_nat n = (if n < 10 then [digit_char n]
                 else show_nat (n div 10) @ [digit_char (n mod 10)])"

declare show_nat.simps [simp del]

definition format_2f :: "rat \<Rightarrow> string" where
  "format_2f x =
     (let c = nat (round_half_even (\<bar>x\<bar> * 100))
      in (if x < 0 then ''-'' else '''')
         @ show_nat (c div 100) @ ''.''
         @ [digit_char (c div 10), digit_char c])"

text \<open>
  The number a formatted text shows, in hundredths: the value of \<open>x\<close> times 100,
  rounded as the format rounds it.
\<close>

definition hundredths :: "rat \<Rightarrow> int" where
  "hundredths x = (if x < 0 then - round_half_even (\<bar>x\<bar> * 100) else round_half_even (\<bar>x\<bar> * 100))"

text \<open>
  Reading the hundredths back from a formatted text: the sign, then the decimal digits
  with the point left out.
\<close>

definition digit_value :: "char \<Rightarrow> nat" where
  "digit_value c = length (takeWhile (\<lambda>d. d \<noteq> c) ''0123456789'')"

definition digits_value :: "string \<Rightarrow> nat" where
  "digits_value s = foldl (\<lambda>v c. 10 * v + digit_value c) 0 s"

definition centis_of_text :: "string \<Rightarrow> int" where
  "centis_of_text s = (if take 1 s = ''-'' then - int (digits_value (filter isdigit s))
                       else int (digits_value (filter isdigit s)))"

section \<open>The program state\<close>

text \<open>
  What the two axes show: the data handed to the two \<^verbatim>\<open>plot\<close> calls of a redraw.
  The reference lines, labels and the readout box are drawing only and are left out.
\<close>

record frame =
  temp_x :: "pyval list"
  temp_y :: "pyval list"
  co2_x :: "pyval list"
  co2_y :: "pyval list"

text \<open>
  The three module-level lists, the session start time, the rows of the session's log
  file (\<open>None\<close> while the file does not exist), the lines printed so far and the
  contents of the axes (\<open>None\<close> before the first redraw). A log row is the list of
  fields handed to \<^verbatim>\<open>csv.writer.writerow\<close>; the file system is taken to accept
  every append and the file's encoding to cover every character of a row.
\<close>

record world =
  timePoints :: "pyval list"
  tempValues :: "pyval list"
  co2Values :: "pyval list"
  startTime :: rat
  logfile :: "string list list option"
  printed :: "string list"
  shown :: "frame option"

text \<open>What one timer tick reads from outside: the decoded line and the clock.\<close>

record tick =
  line :: string
  clock :: rat

text \<open>
  A call either returns or ends the process through \<^verbatim>\<open>exit()\<close>; both carry the state
  the call leaves behind.
\<close>

datatype 'a outcome = Returned 'a | Exited 'a

fun final :: "'a outcome \<Rightarrow> 'a" where
  "final (Returned a) = a"
| "final (Exited a) = a"

fun exited :: "'a outcome \<Rightarrow> bool" where
  "exited (Returned a) = False"
| "exited (Exited a) = True"

definition open_append :: "string list list option \<Rightarrow> string list list" where
  "open_append f = (case f of None \<Rightarrow> [] | Some rows \<Rightarrow> rows)"

section \<open>readData\<close>

definition conversion_error :: "world \<Rightarrow> world outcome" where
  "conversion_error w =
     Exited (w\<lparr>printed := printed w @ [''Data conversion error -- Exiting program'']\<rparr>)"

definition readData :: "bool \<Rightarrow> bool \<Rightarrow> tick \<Rightarrow> world \<Rightarrow> world outcome" where
  "readData csvOut debug t w =
     (let data = split_at (CHR '','') (strip (line t))
      in if data \<noteq> [] \<and> length data = 2 then
           (let timeVal = format_2f (float_sub (clock t) (startTime w));
                w1 = w\<lparr>timePoints := timePoints w @ [PyStr timeVal]\<rparr>
            in case float_of_str (data ! 0) of
                 Inl ValueError \<Rightarrow> conversion_error w1
               | Inr temp \<Rightarrow>
                   (let w2 = w1\<lparr>tempValues := tempValues w1 @ [temp]\<rparr>
                    in case float_of_str (data ! 1) of
                         Inl ValueError \<Rightarrow> conversion_error w2
                       | Inr co2 \<Rightarrow>
                           (let w3 = w2\<lparr>co2Values := co2Values w2 @ [co2]\<rparr>
                            in if csvOut
                               then Returned (w3\<lparr>logfile :=
                                      Some (open_append (logfile w3)
                                            @ [[timeVal, data ! 0, data ! 1]])\<rparr>)
                               else Returned w3)))
         else Returned w)"

section \<open>update\_plot and the session\<close>

text \<open>
  Python's \<^verbatim>\<open>xs[i:]\<close> for any integer \<open>i\<close>: a negative start counts from the end and
  is clamped at the front.
\<close>

definition slice_from :: "int \<Rightarrow> 'a list \<Rightarrow> 'a list" where
  "slice_from i xs =
     (let n = int (length xs);
          j = (if i < 0 then max 0 (n + i) else min i n)
      in drop (nat j) xs)"

definition plotted :: "world \<Rightarrow> frame" where
  "plotted w = \<lparr>temp_x = slice_from (- 15) (timePoints w),
                temp_y = slice_from (- 15) (tempValues w),
                co2_x = slice_from (- 15) (timePoints w),
                co2_y = slice_from (- 15) (co2Values w)\<rparr>"

text \<open>
  \<^verbatim>\<open>update_plot\<close> calls \<^verbatim>\<open>readData(port)\<close>, so with both defaults, and then
  clears and repaints the axes. When readData ends the process nothing is repainted.
\<close>

definition update_plot :: "tick \<Rightarrow> world \<Rightarrow> world outcome" where
  "update_plot t w = (case readData False True t w of
                        Exited w' \<Rightarrow> Exited w'
                      | Returned w' \<Rightarrow> Returned (w'\<lparr>shown := Some (plotted w')\<rparr>))"

text \<open>The timer calls \<^verbatim>\<open>update_plot\<close> once per tick until a call ends the process.\<close>

fun session :: "tick list \<Rightarrow> world \<Rightarrow> world outcome" where
  "session [] w = Returned w"
| "session (t # ts) w = (case update_plot t w of
                           Exited w' \<Rightarrow> Exited w'
                         | Returned w' \<Rightarrow> session ts w')"

text \<open>
  The state when the timer starts: empty lists, no log file yet, the message of
  \<^verbatim>\<open>openPort\<close> printed and nothing drawn.
\<close>

definition initial :: "rat \<Rightarrow> world" where
  "initial s = \<lparr>timePoints = [], tempValues = [], co2Values = [], startTime = s,
                 logfile = None, printed = [''Serial port is open''], shown = None\<rparr>"

text \<open>A store that holds \<open>n\<close> samples, taken one second apart.\<close>

definition stored :: "nat \<Rightarrow> world" where
  "stored n = \<lparr>timePoints = map (\<lambda>k. PyStr (show_nat k @ ''.00'')) [0..<n],
                tempValues = replicate n (PyFloat ''22.5''),
                co2Values = replicate n (PyFloat ''1.2''),
                startTime = 0, logfile = None, printed = [''Serial port is open''],
                shown = None\<rparr>"

text \<open>The three lists are index-aligned when they have the same length.\<close>

definition aligned :: "world \<Rightarrow> bool" where
  "aligned w = (length (timePoints w) = length (tempValues w)
                \<and> length (tempValues w) = length (co2Values w))"

section \<open>Sequences of calls\<close>

text \<open>
  Successive calls of readData by a caller that passes \<^verbatim>\<open>csvOut\<close>, until one of
  them ends the process.
\<close>

fun readData_calls :: "bool \<Rightarrow> tick list \<Rightarrow> world \<Rightarrow> world outcome" where
  "readData_calls csvOut [] w = Returned w"
| "readData_calls csvOut (t # ts) w = (case readData csvOut True t w of
                                        Exited w' \<Rightarrow> Exited w'
                                      | Returned w' \<Rightarrow> readData_calls csvOut ts w')"

text \<open>The complete samples of the store: the three lists read side by side.\<close>

definition samples :: "world \<Rightarrow> (pyval \<times> pyval \<times> pyval) list" where
  "samples w = zip (timePoints w) (zip (tempValues w) (co2Values w))"

text \<open>
  A log row records a sample when it has three fields: the sample's elapsed-time text
  and two texts that convert to the sample's temperature and CO2 value.
\<close>

fun logged_as :: "string list \<Rightarrow> pyval \<times> pyval \<times> pyval \<Rightarrow> bool" where
  "logged_as [s, a, b] (e, temp, co2) =
     (e = PyStr s \<and> float_of_str a = Inr temp \<and> float_of_str b = Inr co2)"
| "logged_as row sample = False"

text \<open>
  The rows a logging run is expected to write, stated from the lines alone: one row per
  line with two convertible fields, holding the formatted elapsed time and the two fields
  as they were split, in the order of the lines, up to the first line that is fatal.
\<close>

fun accepted_rows :: "rat \<Rightarrow> tick list \<Rightarrow> string list list" where
  "accepted_rows s [] = []"
| "accepted_rows s (t # ts) =
     (let data = split_at (CHR '','') (strip (line t))
      in if length data = 2
         then (if float_literal (data ! 0) \<noteq> None \<and> float_literal (data ! 1) \<noteq> None
               then [format_2f (float_sub (clock t) s), data ! 0, data ! 1] # accepted_rows s ts
               else [])
         else accepted_rows s ts)"

text \<open>Two lines read just before and at the ten-second mark of a session.\<close>

definition two_ticks :: "tick list" where
  "two_ticks = [\<lparr>line = ''22.50,1.20'', clock = 639 / 64\<rparr>, \<lparr>line = ''23.10,1.35'', clock = 10\<rparr>]"

section \<open>Properties\<close>

subsection \<open>The four ways through readData\<close>

lemma split_at_nonempty: "split_at sep s \<noteq> []"
  by (cases s) (auto split: list.splits)

lemma readData_skip:
  "length (split_at (CHR '','') (strip (line t))) \<noteq> 2 \<Longrightarrow> readData csvOut debug t w = Returned w"
  by (simp add: readData_def)

lemma readData_bad_first:
  "split_at (CHR '','') (strip (line t)) = [a, b] \<Longrightarrow> float_literal a = None \<Longrightarrow>
   readData csvOut debug t w =
     conversion_error (w\<lparr>timePoints := timePoints w @ [PyStr (format_2f (float_sub (clock t) (startTime w)))]\<rparr>)"
  by (simp add: readData_def float_of_str_def)

lemma readData_bad_second:
  "split_at (CHR '','') (strip (line t)) = [a, b] \<Longrightarrow> float_literal a = Some x \<Longrightarrow>
   float_literal b = None \<Longrightarrow>
   readData csvOut debug t w =
     conversion_error (w\<lparr>timePoints := timePoints w @ [PyStr (format_2f (float_sub (clock t) (startTime w)))],
                         tempValues := tempValues w @ [PyFloat x]\<rparr>)"
  by (simp add: readData_def float_of_str_def)

lemma readData_accept:
  "split_at (CHR '','') (strip (line t)) = [a, b] \<Longrightarrow> float_literal a = Some x \<Longrightarrow>
   float_literal b = Some y \<Longrightarrow>
   readData csvOut debug t w =
     Returned (w\<lparr>timePoints := timePoints w @ [PyStr (format_2f (float_sub (clock t) (startTime w)))],
                 tempValues := tempValues w @ [PyFloat x],
                 co2Values := co2Values w @ [PyFloat y],
                 logfile := (if csvOut
                             then Some (open_append (logfile w)
                                        @ [[format_2f (float_sub (clock t) (startTime w)), a, b]])
                             else logfile w)\<rparr>)"
  by (cases csvOut) (simp_all add: readData_def float_of_str_def Let_def)

lemma readData_cases [case_names skip bad_first bad_second accept]:
  obtains
    (skip) "length (split_at (CHR '','') (strip (line t))) \<noteq> 2"
      and "readData csvOut debug t w = Returned w"
  | (bad_first) a b where "split_at (CHR '','') (strip (line t)) = [a, b]"
      and "float_literal a = None"
      and "readData csvOut debug t w =
             conversion_error (w\<lparr>timePoints := timePoints w @ [PyStr (format_2f (float_sub (clock t) (startTime w)))]\<rparr>)"
  | (bad_second) a b x where "split_at (CHR '','') (strip (line t)) = [a, b]"
      and "float_literal a = Some x" and "float_literal b = None"
      and "readData csvOut debug t w =
             conversion_error (w\<lparr>timePoints := timePoints w @ [PyStr (format_2f (float_sub (clock t) (startTime w)))],
                                 tempValues := tempValues w @ [PyFloat x]\<rparr>)"
  | (accept) a b x y where "split_at (CHR '','') (strip (line t)) = [a, b]"
      and "float_literal a = Some x" and "float_literal b = Some y"
      and "readData csvOut debug t w =
             Returned (w\<lparr>timePoints := timePoints w @ [PyStr (format_2f (float_sub (clock t) (startTime w)))],
                         tempValues := tempValues w @ [PyFloat x],
                         co2Values := co2Values w @ [PyFloat y],
                         logfile := (if csvOut
                                     then Some (open_append (logfile w)
                                                @ [[format_2f (float_sub (clock t) (startTime w)), a, b]])
                                     else logfile w)\<rparr>)"
proof (cases "length (split_at (CHR '','') (strip (line t))) = 2")
  case False
  with readData_skip [OF False] skip show ?thesis
    by blast
next
  case True
  then obtain a b where ab: "split_at (CHR '','') (strip (line t)) = [a, b]"
    by (auto simp: length_Suc_conv numeral_2_eq_2)
  show ?thesis
  proof (cases "float_literal a")
    case None
    with readData_bad_first [OF ab None] bad_first ab show ?thesis
      by blast
  next
    case (Some x)
    note ax = this
    show ?thesis
    proof (cases "float_literal b")
      case None
      with readData_bad_second [OF ab ax None] bad_second ab ax show ?thesis
        by blast
    next
      case (Some y)
      with readData_accept [OF ab ax Some] accept ab ax show ?thesis
        by blast
    qed
  qed
qed

lemma split_at_no_sep: "sep \<notin> set s \<Longrightarrow> split_at sep s = [s]"
  by (induction s) auto

lemma split_at_one_sep: "sep \<notin> set a \<Longrightarrow> split_at sep (a @ sep # r) = a # split_at sep r"
  by (induction a) auto

lemma float_literal_empty: "float_literal [] = None"
  by (simp add: float_literal_def)

subsection \<open>Claims about one call of readData\<close>

text \<open>
  C4. A line whose split on the comma does not give exactly two fields is dropped: the
  call returns, and the lists, the log file and the printed output are as before.
\<close>

theorem readData_wrong_field_count:
  "length (split_at (CHR '','') (strip (line t))) \<noteq> 2 \<Longrightarrow> readData csvOut debug t w = Returned w"
  by (simp add: readData_def)

theorem readData_wrong_field_count_witness:
  "length (split_at (CHR '','') (strip (line \<lparr>line = ''1,2,3'', clock = 5\<rparr>))) \<noteq> 2
   \<and> readData True True \<lparr>line = ''1,2,3'', clock = 5\<rparr> (initial 0) = Returned (initial 0)"
proof -
  have h: "length (split_at (CHR '','') (strip (line \<lparr>line = ''1,2,3'', clock = 5\<rparr>))) \<noteq> 2"
    by (simp add: strip_def isspace_def)
  from readData_wrong_field_count [OF h] h show ?thesis
    by blast
qed

text \<open>
  C1, as the code has it. On a two-field line with a field that does not convert, the call
  prints the error and ends the process. The CO2 list and the log file are as before, but
  the elapsed time has been appended already, and so has the temperature when the first
  field converts: the lists are changed on this path.
\<close>

theorem readData_conversion_error:
  assumes "split_at (CHR '','') (strip (line t)) = [a, b]"
    and "float_literal a = None \<or> float_literal b = None"
  shows "exited (readData csvOut debug t w)
         \<and> co2Values (final (readData csvOut debug t w)) = co2Values w
         \<and> logfile (final (readData csvOut debug t w)) = logfile w
         \<and> timePoints (final (readData csvOut debug t w))
             = timePoints w @ [PyStr (format_2f (float_sub (clock t) (startTime w)))]
         \<and> tempValues (final (readData csvOut debug t w))
             = (case float_literal a of
                  None \<Rightarrow> tempValues w
                | Some x \<Rightarrow> tempValues w @ [PyFloat x])"
proof (cases "float_literal a")
  case None
  from readData_bad_first [OF assms(1) None] show ?thesis
    by (simp add: conversion_error_def None)
next
  case (Some x)
  with assms(2) have "float_literal b = None"
    by simp
  from readData_bad_second [OF assms(1) Some this] show ?thesis
    by (simp add: conversion_error_def Some)
qed

theorem readData_conversion_error_witness:
  "split_at (CHR '','') (strip (line \<lparr>line = ''22.5,bad'', clock = 3\<rparr>)) = [''22.5'', ''bad'']
   \<and> (float_literal ''22.5'' = None \<or> float_literal ''bad'' = None)
   \<and> exited (readData True True \<lparr>line = ''22.5,bad'', clock = 3\<rparr> (initial 1))
   \<and> co2Values (final (readData True True \<lparr>line = ''22.5,bad'', clock = 3\<rparr> (initial 1))) = []
   \<and> logfile (final (readData True True \<lparr>line = ''22.5,bad'', clock = 3\<rparr> (initial 1))) = None
   \<and> timePoints (final (readData True True \<lparr>line = ''22.5,bad'', clock = 3\<rparr> (initial 1)))
       = [PyStr ''2.00'']
   \<and> tempValues (final (readData True True \<lparr>line = ''22.5,bad'', clock = 3\<rparr> (initial 1)))
       = [PyFloat ''22.5'']"
proof -
  have h1: "split_at (CHR '','') (strip (line \<lparr>line = ''22.5,bad'', clock = 3\<rparr>))
            = [''22.5'', ''bad'']"
    by code_simp
  have h2: "float_literal ''22.5'' = None \<or> float_literal ''bad'' = None"
    by code_simp
  have h3: "float_literal ''22.5'' = Some ''22.5''"
    by code_simp
  have h4: "format_2f (float_sub 3 1) = ''2.00''"
    by code_simp
  from readData_conversion_error [OF h1 h2, of True True "initial 1"] h1 h2 show ?thesis
    by (simp add: h3 h4 initial_def)
qed

text \<open>
  C1 as stated fails: on the line \<^verbatim>\<open>a,b\<close> the time list is no longer what it was.
\<close>

theorem readData_conversion_error_changes_store:
  "timePoints (final (readData False True \<lparr>line = ''a,b'', clock = 1\<rparr> (initial 0)))
   \<noteq> timePoints (initial 0)"
  by code_simp

text \<open>
  C3. On a two-field line whose fields both convert the call returns, each of the three
  lists is one element longer, and the lists are aligned afterwards exactly when they were
  before.
\<close>

theorem readData_grows_by_one:
  assumes "split_at (CHR '','') (strip (line t)) = [a, b]"
    and "float_literal a \<noteq> None" and "float_literal b \<noteq> None"
  shows "\<not> exited (readData csvOut debug t w)
         \<and> length (timePoints (final (readData csvOut debug t w))) = Suc (length (timePoints w))
         \<and> length (tempValues (final (readData csvOut debug t w))) = Suc (length (tempValues w))
         \<and> length (co2Values (final (readData csvOut debug t w))) = Suc (length (co2Values w))
         \<and> aligned (final (readData csvOut debug t w)) = aligned w"
proof -
  from assms(2,3) obtain x y where "float_literal a = Some x" "float_literal b = Some y"
    by auto
  from readData_accept [OF assms(1) this] show ?thesis
    by (simp add: aligned_def)
qed

theorem readData_grows_by_one_witness:
  "split_at (CHR '','') (strip (line \<lparr>line = ''22.50,1.20'', clock = 3\<rparr>)) = [''22.50'', ''1.20'']
   \<and> float_literal ''22.50'' \<noteq> None \<and> float_literal ''1.20'' \<noteq> None
   \<and> \<not> exited (readData False True \<lparr>line = ''22.50,1.20'', clock = 3\<rparr> (initial 1))
   \<and> length (timePoints (final (readData False True \<lparr>line = ''22.50,1.20'', clock = 3\<rparr> (initial 1)))) = 1
   \<and> length (tempValues (final (readData False True \<lparr>line = ''22.50,1.20'', clock = 3\<rparr> (initial 1)))) = 1
   \<and> length (co2Values (final (readData False True \<lparr>line = ''22.50,1.20'', clock = 3\<rparr> (initial 1)))) = 1
   \<and> aligned (final (readData False True \<lparr>line = ''22.50,1.20'', clock = 3\<rparr> (initial 1)))"
proof -
  have h1: "split_at (CHR '','') (strip (line \<lparr>line = ''22.50,1.20'', clock = 3\<rparr>))
            = [''22.50'', ''1.20'']"
    by code_simp
  have h2: "float_literal ''22.50'' \<noteq> None"
    by code_simp
  have h3: "float_literal ''1.20'' \<noteq> None"
    by code_simp
  from readData_grows_by_one [OF h1 h2 h3, of False True "initial 1"] h1 h2 h3 show ?thesis
    by (simp add: initial_def aligned_def)
qed

text \<open>
  C2, as the code has it. A call that returns keeps the three lists aligned. A call that
  ends the process leaves the time list one element longer than the CO2 list.
\<close>

theorem readData_keeps_aligned:
  assumes "aligned w"
  shows "if exited (readData csvOut debug t w)
         then length (timePoints (final (readData csvOut debug t w)))
              = Suc (length (co2Values (final (readData csvOut debug t w))))
         else aligned (final (readData csvOut debug t w))"
proof (cases "length (split_at (CHR '','') (strip (line t))) = 2")
  case False
  from readData_skip [OF False] assms show ?thesis
    by simp
next
  case True
  then obtain a b where ab: "split_at (CHR '','') (strip (line t)) = [a, b]"
    by (auto simp: length_Suc_conv numeral_2_eq_2)
  show ?thesis
  proof (cases "float_literal a")
    case None
    from readData_bad_first [OF ab None] assms show ?thesis
      by (simp add: conversion_error_def aligned_def)
  next
    case (Some x)
    show ?thesis
    proof (cases "float_literal b")
      case None
      from readData_bad_second [OF ab Some None] assms show ?thesis
        by (simp add: conversion_error_def aligned_def)
    next
      case (Some y)
      from readData_accept [OF ab \<open>float_literal a = Some x\<close> Some] assms show ?thesis
        by (simp add: aligned_def)
    qed
  qed
qed

theorem readData_keeps_aligned_witness:
  "aligned (initial 0)
   \<and> \<not> exited (readData False True \<lparr>line = ''30,4'', clock = 2\<rparr> (initial 0))
   \<and> aligned (final (readData False True \<lparr>line = ''30,4'', clock = 2\<rparr> (initial 0)))"
proof -
  have h: "aligned (initial 0)"
    by (simp add: aligned_def initial_def)
  have e: "\<not> exited (readData False True \<lparr>line = ''30,4'', clock = 2\<rparr> (initial 0))"
    by code_simp
  from readData_keeps_aligned [OF h, of False True "\<lparr>line = ''30,4'', clock = 2\<rparr>"] h e
  show ?thesis
    by simp
qed

text \<open>
  C2 as stated fails: after the call on the line \<^verbatim>\<open>1,x\<close> the time list and the
  CO2 list have different lengths.
\<close>

theorem readData_exit_not_aligned:
  "length (timePoints (final (readData False True \<lparr>line = ''1,x'', clock = 1\<rparr> (initial 0))))
   \<noteq> length (co2Values (final (readData False True \<lparr>line = ''1,x'', clock = 1\<rparr> (initial 0))))"
  by code_simp

text \<open>
  C10. A line with exactly one comma and nothing on one side of it splits into two fields;
  the empty field does not convert, so the call prints the conversion error and ends the
  process instead of dropping the line.
\<close>

theorem readData_empty_field_fatal:
  assumes "strip (line t) = a @ CHR '','' # b"
    and "CHR '','' \<notin> set a" and "CHR '','' \<notin> set b"
    and "a = [] \<or> b = []"
  shows "split_at (CHR '','') (strip (line t)) = [a, b]
         \<and> float_of_str [] = Inl ValueError
         \<and> exited (readData csvOut debug t w)
         \<and> printed (final (readData csvOut debug t w))
             = printed w @ [''Data conversion error -- Exiting program'']"
proof -
  have ab: "split_at (CHR '','') (strip (line t)) = [a, b]"
    using assms(1-3) by (simp add: split_at_one_sep split_at_no_sep)
  have none: "float_literal a = None \<or> float_literal b = None"
    using assms(4) float_literal_empty by auto
  have "exited (readData csvOut debug t w)
        \<and> printed (final (readData csvOut debug t w))
            = printed w @ [''Data conversion error -- Exiting program'']"
  proof (cases "float_literal a")
    case None
    from readData_bad_first [OF ab None] show ?thesis
      by (simp add: conversion_error_def)
  next
    case (Some x)
    with none have "float_literal b = None"
      by simp
    from readData_bad_second [OF ab Some this] show ?thesis
      by (simp add: conversion_error_def)
  qed
  with ab show ?thesis
    by (simp add: float_of_str_def float_literal_empty)
qed

theorem readData_empty_field_fatal_witness:
  "strip (line \<lparr>line = '','', clock = 7\<rparr>) = [] @ CHR '','' # []
   \<and> CHR '','' \<notin> set ([] :: string) \<and> (([] :: string) = [] \<or> ([] :: string) = [])
   \<and> split_at (CHR '','') (strip (line \<lparr>line = '','', clock = 7\<rparr>)) = [[], []]
   \<and> float_of_str [] = Inl ValueError
   \<and> exited (readData False True \<lparr>line = '','', clock = 7\<rparr> (initial 0))
   \<and> printed (final (readData False True \<lparr>line = '','', clock = 7\<rparr> (initial 0)))
       = [''Serial port is open'', ''Data conversion error -- Exiting program'']"
proof -
  have h1: "strip (line \<lparr>line = '','', clock = 7\<rparr>) = [] @ CHR '','' # []"
    by code_simp
  have h2: "CHR '','' \<notin> set ([] :: string)"
    by simp
  have h3: "([] :: string) = [] \<or> ([] :: string) = []"
    by simp
  from readData_empty_field_fatal [OF h1 h2 h2 h3, of False True "initial 0"] h1 show ?thesis
    by (simp add: initial_def)
qed

subsection \<open>Claims about the redraw and the session\<close>

lemma readData_default_logfile: "logfile (final (readData False debug t w)) = logfile w"
  by (cases rule: readData_cases [where t = t and w = w and csvOut = False and debug = debug])
    (simp_all add: conversion_error_def)

lemma update_plot_logfile: "logfile (final (update_plot t w)) = logfile w"
  using readData_default_logfile [of True t w]
  by (cases "readData False True t w") (simp_all add: update_plot_def)

lemma session_step:
  "session (t # ts) w =
     (if exited (readData False True t w)
      then Exited (final (readData False True t w))
      else session ts (final (readData False True t w)
                         \<lparr>shown := Some (plotted (final (readData False True t w)))\<rparr>))"
  by (cases "readData False True t w") (simp_all add: update_plot_def)

text \<open>
  C9. The timer callback calls readData with its defaults, so logging is off: no tick
  creates or changes the log file, and neither does a whole session.
\<close>

theorem session_never_logs:
  "logfile (final (update_plot t w)) = logfile w
   \<and> logfile (final (session ts w)) = logfile w"
proof
  show "logfile (final (update_plot t w)) = logfile w"
    by (rule update_plot_logfile)
  show "logfile (final (session ts w)) = logfile w"
  proof (induction ts arbitrary: w)
    case Nil
    show ?case by simp
  next
    case (Cons t ts)
    show ?case
      by (simp add: session_step Cons.IH readData_default_logfile del: session.simps)
  qed
qed

lemma slice_from_last: "0 < n \<Longrightarrow> slice_from (- int n) xs = drop (length xs - n) xs"
  by (simp add: slice_from_def Let_def max_def nat_diff_distrib')

lemma window_15:
  "slice_from (- 15) xs = drop (length xs - 15) xs"
  "length (slice_from (- 15) xs) = min 15 (length xs)"
proof -
  from slice_from_last [of 15 xs] show "slice_from (- 15) xs = drop (length xs - 15) xs"
    by simp
  then show "length (slice_from (- 15) xs) = min 15 (length xs)"
    by simp
qed

lemma plotted_last_15:
  "temp_x (plotted w) = drop (length (timePoints w) - 15) (timePoints w)
   \<and> temp_y (plotted w) = drop (length (tempValues w) - 15) (tempValues w)
   \<and> co2_x (plotted w) = drop (length (timePoints w) - 15) (timePoints w)
   \<and> co2_y (plotted w) = drop (length (co2Values w) - 15) (co2Values w)
   \<and> length (temp_x (plotted w)) = min 15 (length (timePoints w))
   \<and> length (temp_y (plotted w)) = min 15 (length (tempValues w))
   \<and> length (co2_x (plotted w)) = min 15 (length (timePoints w))
   \<and> length (co2_y (plotted w)) = min 15 (length (co2Values w))"
  by (auto simp add: plotted_def window_15(1))

lemma returned_final: "\<not> exited r \<Longrightarrow> r = Returned (final r)"
  by (cases r) simp_all

lemma plotted_shown: "plotted (w\<lparr>shown := f\<rparr>) = plotted w"
  by (simp add: plotted_def)

lemma update_plot_shown:
  "update_plot t w = Returned w' \<Longrightarrow> shown w' = Some (plotted w')"
  by (cases "readData False True t w") (auto simp add: update_plot_def plotted_shown)

text \<open>
  C6, as the code has it. The window has no size parameter: every redraw that
  \<^verbatim>\<open>update_plot\<close> completes shows the last 15 elements of each list of the store it
  leaves behind, that is, as many as there are when the list is shorter and 15 otherwise,
  the newest ones, in the order they were appended.
\<close>

theorem update_plot_window:
  assumes "update_plot t w = Returned w'"
  shows "shown w' = Some (plotted w')
         \<and> temp_x (plotted w') = drop (length (timePoints w') - 15) (timePoints w')
         \<and> temp_y (plotted w') = drop (length (tempValues w') - 15) (tempValues w')
         \<and> co2_x (plotted w') = drop (length (timePoints w') - 15) (timePoints w')
         \<and> co2_y (plotted w') = drop (length (co2Values w') - 15) (co2Values w')
         \<and> length (temp_x (plotted w')) = min 15 (length (timePoints w'))
         \<and> length (temp_y (plotted w')) = min 15 (length (tempValues w'))
         \<and> length (co2_x (plotted w')) = min 15 (length (timePoints w'))
         \<and> length (co2_y (plotted w')) = min 15 (length (co2Values w'))"
  using update_plot_shown [OF assms] plotted_last_15 [of w']
  by (rule conjI)

theorem update_plot_window_witness:
  "update_plot \<lparr>line = ''22.5,1.2'', clock = 16\<rparr> (stored 16)
     = Returned (final (update_plot \<lparr>line = ''22.5,1.2'', clock = 16\<rparr> (stored 16)))
   \<and> shown (final (update_plot \<lparr>line = ''22.5,1.2'', clock = 16\<rparr> (stored 16)))
       = Some (plotted (final (update_plot \<lparr>line = ''22.5,1.2'', clock = 16\<rparr> (stored 16))))
   \<and> length (timePoints (final (update_plot \<lparr>line = ''22.5,1.2'', clock = 16\<rparr> (stored 16)))) = 17
   \<and> length (temp_x (plotted (final (update_plot \<lparr>line = ''22.5,1.2'', clock = 16\<rparr> (stored 16)))))
       = 15
   \<and> temp_x (plotted (final (update_plot \<lparr>line = ''22.5,1.2'', clock = 16\<rparr> (stored 16))))
       = map (\<lambda>k. PyStr (show_nat k @ ''.00'')) [2..<17]"
proof -
  have "\<not> exited (update_plot \<lparr>line = ''22.5,1.2'', clock = 16\<rparr> (stored 16))"
    by code_simp
  then have h: "update_plot \<lparr>line = ''22.5,1.2'', clock = 16\<rparr> (stored 16)
                = Returned (final (update_plot \<lparr>line = ''22.5,1.2'', clock = 16\<rparr> (stored 16)))"
    by (rule returned_final)
  have n: "length (timePoints (final (update_plot \<lparr>line = ''22.5,1.2'', clock = 16\<rparr> (stored 16))))
           = 17"
    by code_simp
  have x: "temp_x (plotted (final (update_plot \<lparr>line = ''22.5,1.2'', clock = 16\<rparr> (stored 16))))
           = map (\<lambda>k. PyStr (show_nat k @ ''.00'')) [2..<17]"
    by code_simp
  from update_plot_window [OF h] n
  have "shown (final (update_plot \<lparr>line = ''22.5,1.2'', clock = 16\<rparr> (stored 16)))
        = Some (plotted (final (update_plot \<lparr>line = ''22.5,1.2'', clock = 16\<rparr> (stored 16))))"
    and "length (temp_x (plotted (final (update_plot \<lparr>line = ''22.5,1.2'', clock = 16\<rparr> (stored 16)))))
         = 15"
    by simp_all
  with h n x show ?thesis
    by (intro conjI)
qed

text \<open>
  C6 as stated fails for a window size other than 15: with five samples in the store the
  redraw shows all five, not the three that a window of size 3 would hold.
\<close>

theorem update_plot_window_not_3:
  "length (temp_x (the (shown (final (update_plot \<lparr>line = ''22.5,1.2'', clock = 4\<rparr> (stored 4))))))
   \<noteq> min 3 (length (timePoints (final (update_plot \<lparr>line = ''22.5,1.2'', clock = 4\<rparr> (stored 4)))))"
  by code_simp

subsection \<open>Rounding and reading back the elapsed time\<close>

lemma halvings_bracket:
  "1 \<le> x \<Longrightarrow> 2 ^ halvings x \<le> x \<and> x < 2 * 2 ^ halvings x"
proof (induction x rule: halvings.induct)
  case (1 x)
  show ?case
  proof (cases "x < 2")
    case True
    with 1 show ?thesis
      by (subst (1 2) halvings.simps) simp
  next
    case False
    with 1 have "2 ^ halvings (x / 2) \<le> x / 2 \<and> x / 2 < 2 * 2 ^ halvings (x / 2)"
      by simp
    with False show ?thesis
      by (subst (1 2) halvings.simps) simp
  qed
qed

lemma doublings_bracket:
  "0 < x \<Longrightarrow> x < 1 \<Longrightarrow> 1 \<le> 2 ^ doublings x * x \<and> 2 ^ doublings x * x < 2"
proof (induction x rule: doublings.induct)
  case (1 x)
  show ?case
  proof (cases "1 \<le> 2 * x")
    case True
    then have "doublings (2 * x) = 0"
      by (subst doublings.simps) simp
    with 1 True show ?thesis
      by (subst (1 2) doublings.simps) simp
  next
    case False
    with 1 have "1 \<le> 2 ^ doublings (2 * x) * (2 * x) \<and> 2 ^ doublings (2 * x) * (2 * x) < 2"
      by simp
    with 1(2,3) show ?thesis
      by (subst (1 2) doublings.simps) (simp add: mult.assoc mult.left_commute)
  qed
qed

lemma power_int_two_step: "(2::rat) powi (e + 1) = 2 * 2 powi e"
  by (simp add: power_int_add)

lemma binary_exponent_bracket:
  assumes "0 < x"
  shows "2 powi binary_exponent x \<le> x \<and> x < 2 powi (binary_exponent x + 1)"
proof (cases "1 \<le> x")
  case True
  with halvings_bracket [OF True] show ?thesis
    by (simp add: binary_exponent_def power_int_two_step)
next
  case False
  with assms doublings_bracket [of x]
  have b: "1 \<le> 2 ^ doublings x * x" "2 ^ doublings x * x < 2"
    by simp_all
  have p: "(0::rat) < 2 ^ doublings x"
    by simp
  have e: "binary_exponent x = - int (doublings x)"
    using False by (simp add: binary_exponent_def)
  have pw: "(2::rat) powi (- int (doublings x)) = 1 / 2 ^ doublings x"
    by (simp add: power_int_minus field_simps)
  from b(1) have "1 / 2 ^ doublings x \<le> x"
    using p by (simp add: field_simps)
  moreover from b(2) have "x < 2 * (1 / 2 ^ doublings x)"
    using p by (simp add: field_simps)
  ultimately show ?thesis
    by (simp only: e power_int_two_step pw)
qed

lemma round_half_even_bounds: "\<lfloor>x\<rfloor> \<le> round_half_even x \<and> round_half_even x \<le> \<lfloor>x\<rfloor> + 1"
  by (simp add: round_half_even_def Let_def)

lemma round_half_even_mono:
  assumes "x \<le> y"
  shows "round_half_even x \<le> round_half_even y"
proof (cases "\<lfloor>x\<rfloor> = \<lfloor>y\<rfloor>")
  case True
  with assms show ?thesis
    by (auto simp add: round_half_even_def Let_def)
next
  case False
  with assms have "\<lfloor>x\<rfloor> < \<lfloor>y\<rfloor>"
    by (simp add: floor_mono order_neq_le_trans)
  with round_half_even_bounds [of x] round_half_even_bounds [of y] show ?thesis
    by linarith
qed

lemma round_half_even_of_int: "round_half_even (of_int n) = n"
  by (simp add: round_half_even_def)

lemma ulp_scale: "(2::rat) powi e = of_int (2 ^ 52) * 2 powi (e - 52)"
proof -
  have "(2::rat) powi e = 2 powi (52 + (e - 52))"
    by simp
  also have "\<dots> = 2 powi 52 * 2 powi (e - 52)"
    by (rule power_int_add) simp
  finally show ?thesis
    by simp
qed

lemma ulp_scale_next: "(2::rat) powi (e + 1) = of_int (2 ^ 53) * 2 powi (e - 52)"
proof -
  have "e + 1 = 53 + (e - 52)"
    by simp
  then have "(2::rat) powi (e + 1) = 2 powi (53 + (e - 52))"
    by (rule arg_cong)
  also have "\<dots> = 2 powi 53 * 2 powi (e - 52)"
    by (rule power_int_add) simp
  finally show ?thesis
    by simp
qed

lemma round_double_pos:
  "0 < x \<Longrightarrow> round_double x
     = of_int (round_half_even (x / 2 powi (binary_exponent x - 52))) * 2 powi (binary_exponent x - 52)"
  by (simp add: round_double_def Let_def)

lemma round_double_pos_bounds:
  assumes "0 < x"
  shows "2 powi binary_exponent x \<le> round_double x
         \<and> round_double x \<le> 2 powi (binary_exponent x + 1)"
proof -
  define u :: rat where "u = 2 powi (binary_exponent x - 52)"
  have u: "0 < u"
    by (simp add: u_def zero_less_power_int)
  from binary_exponent_bracket [OF assms]
  have "of_int (2 ^ 52) * u \<le> x" and "x < of_int (2 ^ 53) * u"
    by (simp_all only: ulp_scale [of "binary_exponent x"] ulp_scale_next [of "binary_exponent x"] u_def)
  with u have lo: "of_int (2 ^ 52) \<le> x / u" and hi: "x / u \<le> of_int (2 ^ 53)"
    by (simp_all add: pos_le_divide_eq pos_divide_le_eq)
  have "round_half_even (of_int (2 ^ 52)) \<le> round_half_even (x / u)"
    and "round_half_even (x / u) \<le> round_half_even (of_int (2 ^ 53))"
    using lo hi by (simp_all only: round_half_even_mono)
  then have "(of_int (2 ^ 52) :: rat) \<le> of_int (round_half_even (x / u))"
    and "(of_int (round_half_even (x / u)) :: rat) \<le> of_int (2 ^ 53)"
    by (simp_all only: round_half_even_of_int of_int_le_iff)
  with u have "of_int (2 ^ 52) * u \<le> of_int (round_half_even (x / u)) * u"
    and "of_int (round_half_even (x / u)) * u \<le> of_int (2 ^ 53) * u"
    by (simp_all only: mult_le_cancel_right_pos)
  then show ?thesis
    by (simp only: round_double_pos [OF assms] ulp_scale [of "binary_exponent x"]
        ulp_scale_next [of "binary_exponent x"] u_def)
qed

lemma round_double_pos_mono:
  assumes "0 < x" and "x \<le> y"
  shows "round_double x \<le> round_double y"
proof -
  from assms have y: "0 < y"
    by simp
  note bx = binary_exponent_bracket [OF assms(1)] and by' = binary_exponent_bracket [OF y]
  have le: "binary_exponent x \<le> binary_exponent y"
  proof (rule ccontr)
    assume "\<not> binary_exponent x \<le> binary_exponent y"
    then have "binary_exponent y + 1 \<le> binary_exponent x"
      by simp
    then have "(2::rat) powi (binary_exponent y + 1) \<le> 2 powi binary_exponent x"
      by (rule power_int_increasing) simp
    with bx by' assms(2) show False
      by linarith
  qed
  show ?thesis
  proof (cases "binary_exponent x = binary_exponent y")
    case True
    define u :: rat where "u = 2 powi (binary_exponent y - 52)"
    have u: "0 < u"
      by (simp add: u_def zero_less_power_int)
    with assms(2) have "x / u \<le> y / u"
      by (simp add: divide_right_mono)
    then have "round_half_even (x / u) \<le> round_half_even (y / u)"
      by (rule round_half_even_mono)
    then have "(of_int (round_half_even (x / u)) :: rat) \<le> of_int (round_half_even (y / u))"
      by (simp only: of_int_le_iff)
    with u have "of_int (round_half_even (x / u)) * u \<le> of_int (round_half_even (y / u)) * u"
      by (simp only: mult_le_cancel_right_pos)
    then show ?thesis
      by (simp only: round_double_pos [OF assms(1)] round_double_pos [OF y] True u_def)
  next
    case False
    with le have "binary_exponent x + 1 \<le> binary_exponent y"
      by simp
    then have "(2::rat) powi (binary_exponent x + 1) \<le> 2 powi binary_exponent y"
      by (rule power_int_increasing) simp
    with round_double_pos_bounds [OF assms(1)] round_double_pos_bounds [OF y] show ?thesis
      by linarith
  qed
qed

lemma round_double_neg: "round_double (- x) = - round_double x"
  by (simp add: round_double_def Let_def)

lemma round_double_pos_pos:
  assumes "0 < x"
  shows "0 < round_double x"
proof -
  have "(0::rat) < 2 powi binary_exponent x"
    by (rule zero_less_power_int) simp
  with round_double_pos_bounds [OF assms] show ?thesis
    by linarith
qed

lemma round_double_mono:
  assumes "x \<le> y"
  shows "round_double x \<le> round_double y"
proof -
  consider "0 < x" | "x \<le> 0" "0 \<le> y" | "y < 0"
    using assms by linarith
  then show ?thesis
  proof cases
    case 1
    from 1 assms show ?thesis
      by (rule round_double_pos_mono)
  next
    case 2
    have "round_double x \<le> 0"
    proof (cases "x = 0")
      case True
      then show ?thesis
        by (simp add: round_double_def)
    next
      case False
      with 2 have "0 < - x"
        by simp
      from round_double_pos_pos [OF this] show ?thesis
        by (simp add: round_double_neg)
    qed
    moreover have "0 \<le> round_double y"
    proof (cases "y = 0")
      case True
      then show ?thesis
        by (simp add: round_double_def)
    next
      case False
      with 2 have "0 < y"
        by simp
      from round_double_pos_pos [OF this] show ?thesis
        by simp
    qed
    ultimately show ?thesis
      by simp
  next
    case 3
    with assms have "0 < - y" and "- y \<le> - x"
      by simp_all
    then have "round_double (- y) \<le> round_double (- x)"
      by (rule round_double_pos_mono)
    then show ?thesis
      by (simp add: round_double_neg)
  qed
qed

lemma float_sub_mono: "a \<le> b \<Longrightarrow> float_sub a s \<le> float_sub b s"
  by (simp add: float_sub_def round_double_mono)

lemma round_half_even_nonneg: "0 \<le> x \<Longrightarrow> 0 \<le> round_half_even x"
  using round_half_even_bounds [of x] by (simp add: order_trans [of 0 "\<lfloor>x\<rfloor>"])

lemma round_half_even_near: "\<bar>of_int (round_half_even x) - x\<bar> \<le> 1 / 2"
proof -
  have "of_int \<lfloor>x\<rfloor> \<le> x" and "x < of_int \<lfloor>x\<rfloor> + 1"
    by linarith+
  then show ?thesis
    by (auto simp add: round_half_even_def Let_def)
qed

lemma hundredths_mono:
  assumes "x \<le> y"
  shows "hundredths x \<le> hundredths y"
proof -
  consider "y < 0" | "x < 0" "0 \<le> y" | "0 \<le> x"
    by linarith
  then show ?thesis
  proof cases
    case 1
    with assms have "\<bar>y\<bar> * 100 \<le> \<bar>x\<bar> * 100" and "x < 0"
      by simp_all
    with 1 round_half_even_mono [of "\<bar>y\<bar> * 100" "\<bar>x\<bar> * 100"] show ?thesis
      by (simp add: hundredths_def)
  next
    case 2
    with round_half_even_nonneg [of "\<bar>x\<bar> * 100"] round_half_even_nonneg [of "\<bar>y\<bar> * 100"]
    show ?thesis
      by (simp add: hundredths_def)
  next
    case 3
    with assms have "\<bar>x\<bar> * 100 \<le> \<bar>y\<bar> * 100" and "0 \<le> y"
      by simp_all
    with 3 round_half_even_mono [of "\<bar>x\<bar> * 100" "\<bar>y\<bar> * 100"] show ?thesis
      by (simp add: hundredths_def)
  qed
qed

lemma hundredths_near: "\<bar>of_int (hundredths x) / 100 - x\<bar> \<le> 1 / 200"
proof -
  have "\<bar>of_int (round_half_even (\<bar>x\<bar> * 100)) - \<bar>x\<bar> * 100\<bar> \<le> 1 / 2"
    by (rule round_half_even_near)
  then show ?thesis
    by (cases "x < 0") (simp_all add: hundredths_def abs_if field_simps split: if_splits)
qed

lemma digit_char_cases:
  obtains "d mod 10 = 0" | "d mod 10 = 1" | "d mod 10 = 2" | "d mod 10 = 3" | "d mod 10 = 4"
    | "d mod 10 = 5" | "d mod 10 = 6" | "d mod 10 = 7" | "d mod 10 = 8" | "d mod 10 = (9::nat)"
proof -
  have "m < 10 \<Longrightarrow> m = 0 \<or> m = 1 \<or> m = 2 \<or> m = 3 \<or> m = 4
         \<or> m = 5 \<or> m = 6 \<or> m = 7 \<or> m = 8 \<or> m = 9" for m :: nat
    by arith
  from this [of "d mod 10"] that show ?thesis
    by fastforce
qed

lemma not_isdigit_sign_dot: "\<not> isdigit (CHR ''-'')" "\<not> isdigit (CHR ''.'')"
  by (simp_all add: isdigit_def)

lemma digit_value_digit_char: "digit_value (digit_char d) = d mod 10"
  by (cases d rule: digit_char_cases) (simp_all add: digit_value_def digit_char_def)

lemma isdigit_digit_char: "isdigit (digit_char d)"
  by (cases d rule: digit_char_cases) (simp_all add: isdigit_def digit_char_def)

lemma show_nat_digits: "list_all isdigit (show_nat n)"
proof (induction n rule: show_nat.induct)
  case (1 n)
  then show ?case
    by (subst show_nat.simps) (simp add: isdigit_digit_char)
qed

lemma show_nat_nonempty: "show_nat n \<noteq> []"
  by (subst show_nat.simps) simp

lemma digits_value_snoc: "digits_value (s @ [c]) = 10 * digits_value s + digit_value c"
  by (simp add: digits_value_def)

lemma digits_value_show_nat: "digits_value (show_nat n) = n"
proof (induction n rule: show_nat.induct)
  case (1 n)
  show ?case
  proof (cases "n < 10")
    case True
    then show ?thesis
      by (subst show_nat.simps) (simp add: digits_value_def digit_value_digit_char)
  next
    case False
    with 1 have "digits_value (show_nat (n div 10)) = n div 10"
      by simp
    with False show ?thesis
      by (subst show_nat.simps) (simp add: digits_value_snoc digit_value_digit_char)
  qed
qed

lemma filter_digits: "list_all isdigit s \<Longrightarrow> filter isdigit s = s"
  by (induction s) auto

lemma centis_of_text_format_2f: "centis_of_text (format_2f x) = hundredths x"
proof -
  define c where "c = nat (round_half_even (\<bar>x\<bar> * 100))"
  define body where "body = show_nat (c div 100) @ ''.'' @ [digit_char (c div 10), digit_char c]"
  have c_int: "int c = round_half_even (\<bar>x\<bar> * 100)"
    using round_half_even_nonneg [of "\<bar>x\<bar> * 100"] by (simp add: c_def)
  have fmt: "format_2f x = (if x < 0 then ''-'' else '''') @ body"
    by (simp add: format_2f_def body_def c_def Let_def)
  have digits: "filter isdigit body = show_nat (c div 100) @ [digit_char (c div 10), digit_char c]"
    by (simp add: body_def filter_digits show_nat_digits isdigit_digit_char not_isdigit_sign_dot)
  have "c div 100 = c div 10 div 10"
    by (simp add: div_mult2_eq)
  then have "10 * (c div 100) + c div 10 mod 10 = c div 10"
    by simp
  then have arith: "10 * (10 * (c div 100) + c div 10 mod 10) + c mod 10 = c"
    by simp
  have "digits_value ((show_nat (c div 100) @ [digit_char (c div 10)]) @ [digit_char c])
        = 10 * (10 * (c div 100) + c div 10 mod 10) + c mod 10"
    by (simp only: digits_value_snoc digits_value_show_nat digit_value_digit_char)
  with arith have val: "digits_value (filter isdigit body) = c"
    by (simp add: digits)
  obtain d ds where "show_nat (c div 100) = d # ds" and "isdigit d"
    using show_nat_nonempty [of "c div 100"] show_nat_digits [of "c div 100"]
    by (cases "show_nat (c div 100)") auto
  then have first: "take 1 body \<noteq> ''-''"
    using not_isdigit_sign_dot(1) by (auto simp add: body_def)
  show ?thesis
  proof (cases "x < 0")
    case True
    then have "centis_of_text (format_2f x) = - int c"
      by (simp add: fmt centis_of_text_def val not_isdigit_sign_dot)
    with True c_int show ?thesis
      by (simp add: hundredths_def)
  next
    case False
    then have "centis_of_text (format_2f x) = int c"
      using first by (simp add: fmt centis_of_text_def val)
    with False c_int show ?thesis
      by (simp add: hundredths_def)
  qed
qed

lemma readData_startTime: "startTime (final (readData csvOut debug t w)) = startTime w"
  by (cases rule: readData_cases [where t = t and w = w and csvOut = csvOut and debug = debug])
    (simp_all add: conversion_error_def)

lemma readData_timePoints:
  "timePoints (final (readData csvOut debug t w)) = timePoints w
   \<or> timePoints (final (readData csvOut debug t w))
       = timePoints w @ [PyStr (format_2f (float_sub (clock t) (startTime w)))]"
  by (cases rule: readData_cases [where t = t and w = w and csvOut = csvOut and debug = debug])
    (simp_all add: conversion_error_def)

lemma session_stamps:
  "sorted (map clock ts) \<Longrightarrow>
   \<exists>cs. timePoints (final (session ts w))
           = timePoints w @ map (\<lambda>c. PyStr (format_2f (float_sub c (startTime w)))) cs
        \<and> sorted cs \<and> set cs \<subseteq> clock ` set ts"
proof (induction ts arbitrary: w)
  case Nil
  show ?case
    by (rule exI [of _ "[]"]) simp
next
  case (Cons t ts)
  let ?r = "readData False True t w"
  from Cons.prems have sorted_ts: "sorted (map clock ts)"
    and least: "\<forall>c \<in> clock ` set ts. clock t \<le> c"
    by auto
  show ?case
  proof (cases "exited ?r")
    case True
    from readData_timePoints [of False True t w] show ?thesis
    proof
      assume "timePoints (final ?r) = timePoints w"
      with True show ?thesis
        by (intro exI [of _ "[]"]) (simp add: session_step del: session.simps)
    next
      assume "timePoints (final ?r) = timePoints w @ [PyStr (format_2f (float_sub (clock t) (startTime w)))]"
      with True show ?thesis
        by (intro exI [of _ "[clock t]"]) (simp add: session_step del: session.simps)
    qed
  next
    case False
    let ?w = "final ?r\<lparr>shown := Some (plotted (final ?r))\<rparr>"
    from Cons.IH [OF sorted_ts, of ?w] obtain cs
      where cs: "timePoints (final (session ts ?w))
                 = timePoints (final ?r) @ map (\<lambda>c. PyStr (format_2f (float_sub c (startTime w)))) cs"
        and "sorted cs" and sub: "set cs \<subseteq> clock ` set ts"
      by (auto simp add: readData_startTime)
    from readData_timePoints [of False True t w] show ?thesis
    proof
      assume "timePoints (final ?r) = timePoints w"
      with False cs \<open>sorted cs\<close> sub show ?thesis
        by (intro exI [of _ cs]) (auto simp add: session_step simp del: session.simps)
    next
      assume "timePoints (final ?r) = timePoints w @ [PyStr (format_2f (float_sub (clock t) (startTime w)))]"
      moreover from least sub \<open>sorted cs\<close> have "sorted (clock t # cs)"
        by auto
      ultimately show ?thesis
        using False cs sub
        by (intro exI [of _ "clock t # cs"]) (auto simp add: session_step simp del: session.simps)
    qed
  qed
qed

text \<open>
  C7. When the clock readings of the ticks never decrease, the elapsed times appended
  during the session never decrease either: the numbers the stored texts show are in
  ascending order.
\<close>

theorem elapsed_time_monotone:
  assumes "sorted (map clock ts)"
  shows "sorted (map (\<lambda>v. centis_of_text (text_of v))
                     (drop (length (timePoints w)) (timePoints (final (session ts w)))))"
proof -
  from session_stamps [OF assms, of w] obtain cs
    where tp: "timePoints (final (session ts w))
               = timePoints w @ map (\<lambda>c. PyStr (format_2f (float_sub c (startTime w)))) cs"
      and "sorted cs"
    by blast
  have "map (\<lambda>v. centis_of_text (text_of v))
            (drop (length (timePoints w)) (timePoints (final (session ts w))))
        = map (\<lambda>c. hundredths (float_sub c (startTime w))) cs"
    by (simp add: tp centis_of_text_format_2f)
  moreover have "sorted (map (\<lambda>c. hundredths (float_sub c (startTime w))) cs)"
    using \<open>sorted cs\<close>
    by (induction cs) (auto intro: hundredths_mono float_sub_mono)
  ultimately show ?thesis
    by simp
qed

theorem elapsed_time_monotone_witness:
  "sorted (map clock two_ticks)
   \<and> sorted (map (\<lambda>v. centis_of_text (text_of v))
                  (drop (length (timePoints (initial 0)))
                        (timePoints (final (session two_ticks (initial 0))))))
   \<and> timePoints (final (session two_ticks (initial 0))) = [PyStr ''9.98'', PyStr ''10.00'']"
proof -
  have h: "sorted (map clock two_ticks)"
    by (simp add: two_ticks_def)
  have tp: "timePoints (final (session two_ticks (initial 0))) = [PyStr ''9.98'', PyStr ''10.00'']"
    by code_simp
  from elapsed_time_monotone [OF h, of "initial 0"] h tp show ?thesis
    by blast
qed

text \<open>
  C8, as the code has it. The elapsed time stored for an accepted sample is a text, not a
  float: the float difference of the current time and the session start time in the format
  \<^verbatim>\<open>'%.2f'\<close>. The number it shows is within half a hundredth of that float
  difference.
\<close>

theorem readData_elapsed_text:
  assumes "split_at (CHR '','') (strip (line t)) = [a, b]"
    and "float_literal a \<noteq> None" and "float_literal b \<noteq> None"
  shows "last (timePoints (final (readData csvOut debug t w)))
           = PyStr (format_2f (float_sub (clock t) (startTime w)))
         \<and> \<bar>of_int (centis_of_text (format_2f (float_sub (clock t) (startTime w)))) / 100
             - float_sub (clock t) (startTime w)\<bar> \<le> 1 / 200"
proof -
  from assms(2,3) obtain x y where "float_literal a = Some x" "float_literal b = Some y"
    by auto
  from readData_accept [OF assms(1) this]
  have "last (timePoints (final (readData csvOut debug t w)))
        = PyStr (format_2f (float_sub (clock t) (startTime w)))"
    by simp
  moreover have "\<bar>of_int (centis_of_text (format_2f (float_sub (clock t) (startTime w)))) / 100
                  - float_sub (clock t) (startTime w)\<bar> \<le> 1 / 200"
    by (simp only: centis_of_text_format_2f) (rule hundredths_near)
  ultimately show ?thesis
    by (rule conjI)
qed

theorem readData_elapsed_text_witness:
  "split_at (CHR '','') (strip (line \<lparr>line = ''23.10,1.35'', clock = 33 / 8\<rparr>))
     = [''23.10'', ''1.35'']
   \<and> float_literal ''23.10'' \<noteq> None \<and> float_literal ''1.35'' \<noteq> None
   \<and> last (timePoints (final (readData False True \<lparr>line = ''23.10,1.35'', clock = 33 / 8\<rparr>
                                 (initial (3602879701896397 / 36028797018963968)))))
       = PyStr ''4.03''
   \<and> format_2f (33 / 8 - 3602879701896397 / 36028797018963968) = ''4.02''"
proof -
  have h1: "split_at (CHR '','') (strip (line \<lparr>line = ''23.10,1.35'', clock = 33 / 8\<rparr>))
            = [''23.10'', ''1.35'']"
    by code_simp
  have h2: "float_literal ''23.10'' \<noteq> None"
    by code_simp
  have h3: "float_literal ''1.35'' \<noteq> None"
    by code_simp
  have h4: "format_2f (float_sub (33 / 8) (3602879701896397 / 36028797018963968)) = ''4.03''"
    by code_simp
  have h5: "format_2f (33 / 8 - 3602879701896397 / 36028797018963968) = ''4.02''"
    by code_simp
  from readData_elapsed_text [OF h1 h2 h3, of False True
      "initial (3602879701896397 / 36028797018963968)"] h1 h2 h3 h4 h5
  show ?thesis
    by (simp add: initial_def)
qed

text \<open>C8 as stated fails: the element stored for an accepted sample is not a float.\<close>

theorem readData_elapsed_not_float:
  "\<not> is_PyFloat (last (timePoints (final
        (readData False True \<lparr>line = ''22.50,1.20'', clock = 3\<rparr> (initial 1)))))"
  by code_simp

subsection \<open>Logging\<close>

lemma zip_extra_left: "length ys \<le> length xs \<Longrightarrow> zip (xs @ e) ys = zip xs ys"
  by (simp add: zip_append1)

text \<open>
  C5. With logging on, the rows added to the log file are the expected ones: one row per
  accepted sample, in the order the samples are appended to the store, each holding the
  formatted elapsed time and the two fields as text exactly as they were split from the
  line, which convert to the stored temperature and CO2 value.
\<close>

theorem logged_rows_are_samples:
  assumes "aligned w"
  shows "\<exists>new. open_append (logfile (final (readData_calls True ts w)))
                  = open_append (logfile w) @ accepted_rows (startTime w) ts
              \<and> samples (final (readData_calls True ts w)) = samples w @ new
              \<and> list_all2 logged_as (accepted_rows (startTime w) ts) new"
  using assms
proof (induction ts arbitrary: w)
  case Nil
  show ?case
    by simp
next
  case (Cons t ts)
  show ?case
  proof (cases rule: readData_cases [where t = t and w = w and csvOut = True and debug = True])
    case skip
    with Cons.IH [OF Cons.prems] show ?thesis
      by simp
  next
    case (bad_first a b)
    with Cons.prems show ?thesis
      by (simp add: conversion_error_def samples_def aligned_def zip_extra_left)
  next
    case (bad_second a b x)
    with Cons.prems show ?thesis
      by (simp add: conversion_error_def samples_def aligned_def zip_extra_left)
  next
    case (accept a b x y)
    let ?e = "format_2f (float_sub (clock t) (startTime w))"
    let ?w = "w\<lparr>timePoints := timePoints w @ [PyStr ?e],
                  tempValues := tempValues w @ [PyFloat x],
                  co2Values := co2Values w @ [PyFloat y],
                  logfile := Some (open_append (logfile w) @ [[?e, a, b]])\<rparr>"
    let ?rows = "accepted_rows (startTime w) ts"
    from Cons.prems have al: "aligned ?w"
      by (simp add: aligned_def)
    from Cons.prems have smp: "samples ?w = samples w @ [(PyStr ?e, PyFloat x, PyFloat y)]"
      by (simp add: samples_def aligned_def)
    from Cons.IH [OF al] obtain new
      where rows: "open_append (logfile (final (readData_calls True ts ?w)))
                   = open_append (logfile ?w) @ ?rows"
        and new: "samples (final (readData_calls True ts ?w)) = samples ?w @ new"
        and rel: "list_all2 logged_as ?rows new"
      by auto
    from accept have here: "accepted_rows (startTime w) (t # ts) = [?e, a, b] # ?rows"
      by simp
    from accept have "logged_as [?e, a, b] (PyStr ?e, PyFloat x, PyFloat y)"
      by (simp add: float_of_str_def)
    with rel have "list_all2 logged_as ([?e, a, b] # ?rows) ((PyStr ?e, PyFloat x, PyFloat y) # new)"
      by simp
    moreover from accept rows
    have "open_append (logfile (final (readData_calls True (t # ts) w)))
          = open_append (logfile w) @ [?e, a, b] # ?rows"
      by (simp add: open_append_def)
    moreover from accept new smp
    have "samples (final (readData_calls True (t # ts) w))
          = samples w @ (PyStr ?e, PyFloat x, PyFloat y) # new"
      by simp
    ultimately show ?thesis
      unfolding here by blast
  qed
qed

theorem logged_rows_are_samples_witness:
  "aligned (initial 0)
   \<and> (\<exists>new. open_append (logfile (final (readData_calls True two_ticks (initial 0))))
                = open_append (logfile (initial 0)) @ accepted_rows (startTime (initial 0)) two_ticks
            \<and> samples (final (readData_calls True two_ticks (initial 0)))
                = samples (initial 0) @ new
            \<and> list_all2 logged_as (accepted_rows (startTime (initial 0)) two_ticks) new)
   \<and> accepted_rows (startTime (initial 0)) two_ticks
       = [[''9.98'', ''22.50'', ''1.20''], [''10.00'', ''23.10'', ''1.35'']]"
proof -
  have h: "aligned (initial 0)"
    by (simp add: aligned_def initial_def)
  have rows: "accepted_rows (startTime (initial 0)) two_ticks
              = [[''9.98'', ''22.50'', ''1.20''], [''10.00'', ''23.10'', ''1.35'']]"
    by code_simp
  from logged_rows_are_samples [OF h, of two_ticks] h rows show ?thesis
    by blast
qed

end
